theory Spec2Isabelle
  imports Complex_Main "HOL-Library.Log_Nat"
begin

section \<open>Strings and the formatting verbs of fmt.Sprintf\<close>

text \<open>
  Go strings are byte sequences (UTF-8); a \<^typ>\<open>string\<close> is a list of bytes. The euro
  sign of the source is its three UTF-8 bytes.
\<close>

definition nl :: string where
  "nl = [CHR 0x0A]"

definition euro :: string where
  "euro = [CHR 0xE2, CHR 0x82, CHR 0xAC]"

definition digit_char :: "nat \<Rightarrow> char" where
  "digit_char d = char_of (48 + d)"

function natToDec :: "nat \<Rightarrow> string" where
  "natToDec n = (if n < 10 then [digit_char n] else natToDec (n div 10) @ [digit_char (n mod 10)])"
  by pat_completeness auto
termination
  by (relation "measure id") auto

declare natToDec.simps [simp del]

text \<open>The verb \<^verbatim>\<open>%d\<close> on an int.\<close>

definition fmt_d :: "int \<Rightarrow> string" where
  "fmt_d i = (if i < 0 then ''-'' @ natToDec (nat (- i)) else natToDec (nat i))"

text \<open>The verb \<^verbatim>\<open>%-20s\<close>: left-justified, padded with spaces on the right. Go pads by
  the number of runes; the names of the catalog are ASCII, where runes are bytes.\<close>

definition padRight :: "nat \<Rightarrow> string \<Rightarrow> string" where
  "padRight w s = s @ replicate (w - length s) (CHR '' '')"

definition round_half_even :: "rat \<Rightarrow> int" where
  "round_half_even x =
     (let f = \<lfloor>x\<rfloor>; d = x - of_int f
      in if d < 1 / 2 then f else if 1 / 2 < d then f + 1 else if even f then f else f + 1)"

text \<open>The verb \<^verbatim>\<open>%.2f\<close> on a finite float64, given by its exact value: the decimal
  expansion of the value, correctly rounded to two places (ties to even).\<close>

definition fmt_2f :: "rat \<Rightarrow> string" where
  "fmt_2f x =
     (let n = nat (round_half_even (\<bar>x\<bar> * 100))
      in (if x < 0 then ''-'' else []) @ natToDec (n div 100) @ ''.'' @
         [digit_char (n mod 100 div 10), digit_char (n mod 10)])"

section \<open>float64 arithmetic\<close>

text \<open>
  A finite float64 is modelled by the rational number it denotes. Every operation
  computes the exact result and rounds it to the nearest float64 (53 significant bits,
  least exponent \<open>-1074\<close>, ties to even). Overflow to an infinity, NaN and the sign of
  zero are outside this model.
\<close>

type_synonym float64 = rat

definition pow2 :: "int \<Rightarrow> rat" where
  "pow2 e = (if 0 \<le> e then 2 ^ nat e else 1 / 2 ^ nat (- e))"

text \<open>\<open>flog2 x\<close> is \<open>\<lfloor>log\<^sub>2 x\<rfloor>\<close> for \<open>x > 0\<close>.\<close>

definition flog2 :: "rat \<Rightarrow> int" where
  "flog2 x = (if 1 \<le> x then bitlen \<lfloor>x\<rfloor> - 1 else - bitlen (\<lceil>1 / x\<rceil> - 1))"

definition f64_round :: "rat \<Rightarrow> float64" where
  "f64_round x =
     (if x = 0 then 0
      else (let e = max (flog2 \<bar>x\<bar> - 52) (- 1074)
            in of_int (round_half_even (x / pow2 e)) * pow2 e))"

definition f64_of_int :: "int \<Rightarrow> float64" where
  "f64_of_int i = f64_round (of_int i)"

definition f64_mul :: "float64 \<Rightarrow> float64 \<Rightarrow> float64" where
  "f64_mul a b = f64_round (a * b)"

definition f64_add :: "float64 \<Rightarrow> float64 \<Rightarrow> float64" where
  "f64_add a b = f64_round (a + b)"

section \<open>Data\<close>

record Beverage =
  Name :: string
  Price :: float64
  Stock :: int

definition ourBeverages :: "Beverage list" where
  "ourBeverages =
     [\<lparr>Name = ''Club-Mate'', Price = 3 / 2, Stock = 24\<rparr>,
      \<lparr>Name = ''Espresso'', Price = 1, Stock = 50\<rparr>,
      \<lparr>Name = ''Fritz-Kola'', Price = 2, Stock = 12\<rparr>,
      \<lparr>Name = ''Water'', Price = 1 / 2, Stock = 100\<rparr>,
      \<lparr>Name = ''Beer'', Price = 5 / 2, Stock = 6\<rparr>]"

text \<open>A runtime panic of Go: indexing a slice out of range.\<close>

datatype panic = IndexOutOfRange

definition index_slice :: "'a list \<Rightarrow> int \<Rightarrow> panic + 'a" where
  "index_slice xs i = (if 0 \<le> i \<and> i < int (length xs) then Inr (xs ! nat i) else Inl IndexOutOfRange)"

text \<open>Reading a Go map: the zero value for an absent key.\<close>

definition cart_get :: "(int \<rightharpoonup> int) \<Rightarrow> int \<Rightarrow> int" where
  "cart_get c k = (case c k of None \<Rightarrow> 0 | Some q \<Rightarrow> q)"

text \<open>
  A \<^verbatim>\<open>range\<close> loop over a Go map visits every key once, in an order that the language
  leaves unspecified and that the runtime chooses anew for each loop. The loops over the
  cart therefore take the order of the visit as an argument; \<open>range_order ks c\<close> says
  that \<open>ks\<close> is an order in which the map \<open>c\<close> can be visited.
\<close>

definition range_order :: "int list \<Rightarrow> (int \<rightharpoonup> int) \<Rightarrow> bool" where
  "range_order ks c \<longleftrightarrow> distinct ks \<and> set ks = dom c"

section \<open>The table component\<close>

text \<open>
  Modelled from the spec: the table component (package bubbles/table, an external
  library) whose cursor is the selection cursor of the shop. The spec (sections 3 and
  4.1): the cursor is an index into the catalog, moved by navigation events and clamped
  to \<open>[0, len(catalog) - 1]\<close>; navigate-down/up moves it by one row. The keys are the
  component's default bindings; the page, half-page and home/end bindings move the
  cursor by more than one row and clamp it in the same way.
\<close>

text \<open>The program asks for a table of height 7, of which the header takes one line;
  \<open>viewportHeight\<close> is the rest, the step of the page keys.\<close>

record table_Model =
  cursor :: int
  rows :: "string list list"
  viewportHeight :: int

definition clamp :: "int \<Rightarrow> int \<Rightarrow> int \<Rightarrow> int" where
  "clamp v low high = min (max v low) high"

definition MoveUp :: "int \<Rightarrow> table_Model \<Rightarrow> table_Model" where
  "MoveUp n t = t\<lparr>cursor := clamp (cursor t - n) 0 (int (length (rows t)) - 1)\<rparr>"

definition MoveDown :: "int \<Rightarrow> table_Model \<Rightarrow> table_Model" where
  "MoveDown n t = t\<lparr>cursor := clamp (cursor t + n) 0 (int (length (rows t)) - 1)\<rparr>"

definition SetRows :: "string list list \<Rightarrow> table_Model \<Rightarrow> table_Model" where
  "SetRows r t = t\<lparr>rows := r\<rparr>"

definition table_Update :: "table_Model \<Rightarrow> string \<Rightarrow> table_Model" where
  "table_Update t key =
     (if key \<in> set [''up'', ''k''] then MoveUp 1 t
      else if key \<in> set [''down'', ''j''] then MoveDown 1 t
      else if key \<in> set [''b'', ''pgup''] then MoveUp (viewportHeight t) t
      else if key \<in> set [''f'', ''pgdown'', '' ''] then MoveDown (viewportHeight t) t
      else if key \<in> set [''u'', ''ctrl+u''] then MoveUp (viewportHeight t div 2) t
      else if key \<in> set [''d'', ''ctrl+d''] then MoveDown (viewportHeight t div 2) t
      else if key \<in> set [''home'', ''g''] then MoveUp (cursor t) t
      else if key \<in> set [''end'', ''G''] then MoveDown (int (length (rows t))) t
      else t)"

section \<open>The model and its update function\<close>

record model =
  beverages :: "Beverage list"
  table :: table_Model
  cart :: "int \<rightharpoonup> int"
  isCheckingOut :: bool
  activeTab :: int
  width :: int
  height :: int

text \<open>The rows of the shop table, as both \<open>initialModel\<close> and \<open>Update\<close> build them.\<close>

definition shopRows :: "Beverage list \<Rightarrow> (int \<rightharpoonup> int) \<Rightarrow> string list list" where
  "shopRows bs c =
     map (\<lambda>(i, beverage).
            [Name beverage, euro @ fmt_2f (Price beverage), fmt_d (Stock beverage),
             fmt_d (cart_get c (int i))])
         (enumerate 0 bs)"

definition initialModel :: model where
  "initialModel =
     \<lparr>beverages = ourBeverages,
      table = \<lparr>cursor = 0, rows = shopRows ourBeverages Map.empty, viewportHeight = 6\<rparr>,
      cart = Map.empty,
      isCheckingOut = False,
      activeTab = 0,
      width = 0,
      height = 0\<rparr>"

datatype msg = WindowSizeMsg int int | KeyMsg string | OtherMsg

datatype cmd = Quit

text \<open>The loop that looks for a positive quantity, leaving at the first one.\<close>

fun hasItems_range :: "int list \<Rightarrow> (int \<rightharpoonup> int) \<Rightarrow> bool" where
  "hasItems_range [] c = False"
| "hasItems_range (k # ks) c = (if 0 < cart_get c k then True else hasItems_range ks c)"

text \<open>The inner switch of the Shop tab: the quantity keys.\<close>

definition shopKeys :: "model \<Rightarrow> string \<Rightarrow> panic + model" where
  "shopKeys m key =
     (if key \<in> set [''+'', ''='', ''right''] then
        (let cur = cursor (table m)
         in case index_slice (beverages m) cur of
              Inl e \<Rightarrow> Inl e
            | Inr beverage \<Rightarrow>
                if cart_get (cart m) cur < Stock beverage
                then Inr (m\<lparr>cart := (cart m)(cur \<mapsto> cart_get (cart m) cur + 1)\<rparr>)
                else Inr m)
      else if key \<in> set [''-'', ''left''] then
        (let cur = cursor (table m)
         in if 0 < cart_get (cart m) cur
            then Inr (m\<lparr>cart := (cart m)(cur \<mapsto> cart_get (cart m) cur - 1)\<rparr>)
            else Inr m)
      else Inr m)"

definition shopTab :: "model \<Rightarrow> string \<Rightarrow> panic + model \<times> cmd option" where
  "shopTab m key =
     (case shopKeys m key of
        Inl e \<Rightarrow> Inl e
      | Inr m1 \<Rightarrow>
          Inr (m1\<lparr>table := table_Update (SetRows (shopRows (beverages m1) (cart m1)) (table m1)) key\<rparr>,
               None))"

definition cartTab :: "int list \<Rightarrow> model \<Rightarrow> string \<Rightarrow> model \<times> cmd option" where
  "cartTab ks m key =
     (if isCheckingOut m then
        (if key = ''y'' then (m, Some Quit)
         else if key \<in> set [''n'', ''esc''] then (m\<lparr>isCheckingOut := False\<rparr>, None)
         else (m, None))
      else if key = ''enter'' then
        (if hasItems_range ks (cart m) then (m\<lparr>isCheckingOut := True\<rparr>, None) else (m, None))
      else (m, None))"

text \<open>The tab keys, handled before the switch on the active tab.\<close>

definition tabKeys :: "model \<Rightarrow> string \<Rightarrow> model" where
  "tabKeys m key =
     (if key = ''s'' then m\<lparr>activeTab := 0, isCheckingOut := False\<rparr>
      else if key = ''c'' then m\<lparr>activeTab := 1, isCheckingOut := False\<rparr>
      else m)"

text \<open>
  \<open>Update ks m msg\<close>: the new model and the command, or the panic. \<open>ks\<close> is the order
  in which the runtime visits the cart, should this call range over it. The receiver is
  a value, but its cart is a Go map, which the source updates in place; the model
  returns the new contents of the map in the new model. Go's int is 64 bits wide; the
  model uses \<^typ>\<open>int\<close>, as no operation here can overflow: a quantity is incremented
  only below a stock and decremented only above 0.
\<close>

definition Update :: "int list \<Rightarrow> model \<Rightarrow> msg \<Rightarrow> panic + model \<times> cmd option" where
  "Update ks m ms =
     (case ms of
        WindowSizeMsg w h \<Rightarrow> Inr (m\<lparr>width := w, height := h\<rparr>, None)
      | OtherMsg \<Rightarrow> Inr (m, None)
      | KeyMsg keypress \<Rightarrow>
          if keypress \<in> set [''ctrl+c'', ''q''] then Inr (m, Some Quit)
          else (let m1 = tabKeys m keypress
                in if activeTab m1 = 0 then shopTab m1 keypress
                   else if activeTab m1 = 1 then Inr (cartTab ks m1 keypress)
                   else Inr (m1, None)))"

section \<open>The cart view\<close>

text \<open>
  \<open>cartView ks m\<close>: the string, or the panic of indexing the catalog with a key of the
  cart that is no index of it. \<open>ks\<close> is the order in which the runtime visits the cart.
  The function \<open>View\<close> of the source passes this string, on the Cart tab, through the
  styling and layout functions of an external library, which are not modelled.
\<close>

definition cartLine :: "int \<Rightarrow> Beverage \<Rightarrow> float64 \<Rightarrow> string" where
  "cartLine quantity beverage itemPrice =
     ''  '' @ fmt_d quantity @ ''x '' @ padRight 20 (Name beverage) @ '' @ '' @ euro @
     fmt_2f (Price beverage) @ '' each = '' @ euro @ fmt_2f itemPrice @ nl"

fun cartLoop ::
  "Beverage list \<Rightarrow> (int \<rightharpoonup> int) \<Rightarrow> int list \<Rightarrow> float64 \<times> bool \<times> string \<Rightarrow>
   panic + float64 \<times> bool \<times> string" where
  "cartLoop bs c [] acc = Inr acc"
| "cartLoop bs c (i # ks) (totalPrice, hasItems, s) =
     (let quantity = cart_get c i
      in if 0 < quantity then
           (case index_slice bs i of
              Inl e \<Rightarrow> Inl e
            | Inr beverage \<Rightarrow>
                (let itemPrice = f64_mul (Price beverage) (f64_of_int quantity)
                 in cartLoop bs c ks
                      (f64_add totalPrice itemPrice, True, s @ cartLine quantity beverage itemPrice)))
         else cartLoop bs c ks (totalPrice, hasItems, s))"

definition cartHeader :: string where
  "cartHeader = ''Your Current Order:'' @ nl @ nl"

definition cartEmpty :: string where
  "cartEmpty = ''  Your cart is empty!'' @ nl @ nl @ nl @ ''Go to the 'Shop' tab to add items.''"

definition cartSeparator :: string where
  "cartSeparator = nl @ ''  -------------------------------------------'' @ nl"

definition totalLine :: "float64 \<Rightarrow> string" where
  "totalLine totalPrice = ''  Total: '' @ euro @ fmt_2f totalPrice @ nl"

definition cartConfirm :: string where
  "cartConfirm = nl @ nl @ ''Confirm purchase? (y/n)'' @ nl @ ''(Press 'esc' or 'n' to cancel checkout)''"

definition cartHint :: string where
  "cartHint = nl @ nl @ ''Press 'enter' to checkout.''"

definition cartView :: "int list \<Rightarrow> model \<Rightarrow> panic + string" where
  "cartView ks m =
     (case cartLoop (beverages m) (cart m) ks (0, False, cartHeader) of
        Inl e \<Rightarrow> Inl e
      | Inr (totalPrice, hasItems, s) \<Rightarrow>
          Inr (if \<not> hasItems then s @ cartEmpty
               else s @ cartSeparator @ totalLine totalPrice @
                    (if isCheckingOut m then cartConfirm else cartHint)))"

section \<open>States\<close>

text \<open>
  The states of the data model: the cursor is an index into the catalog, every entry of
  the cart belongs to a catalog item and holds a quantity between 0 and the stock of
  that item, the rows of the table show the catalog and the cart, the tab is Shop (0)
  or Cart (1), and a checkout is pending only on the Cart tab and over a cart that
  holds something.
\<close>

definition bounds_inv :: "model \<Rightarrow> bool" where
  "bounds_inv m \<longleftrightarrow>
     0 \<le> cursor (table m) \<and> cursor (table m) < int (length (beverages m)) \<and>
     (\<forall>k q. cart m k = Some q \<longrightarrow>
        0 \<le> k \<and> k < int (length (beverages m)) \<and> 0 \<le> q \<and> q \<le> Stock (beverages m ! nat k))"

definition model_inv :: "model \<Rightarrow> bool" where
  "model_inv m \<longleftrightarrow>
     bounds_inv m \<and>
     rows (table m) = shopRows (beverages m) (cart m) \<and>
     (activeTab m = 0 \<or> activeTab m = 1) \<and>
     (isCheckingOut m \<longrightarrow> activeTab m = 1 \<and> (\<exists>k q. cart m k = Some q \<and> 0 < q))"

text \<open>
  The states the program reaches: from \<open>initialModel\<close>, by any messages, with any
  order of visit the runtime may choose for the cart.
\<close>

inductive reachable :: "model \<Rightarrow> bool" where
  init: "reachable initialModel"
| step: "reachable m \<Longrightarrow> range_order ks (cart m) \<Longrightarrow> Update ks m ev = Inr (m', c) \<Longrightarrow> reachable m'"

text \<open>The keys that some branch of \<open>Update\<close> or of the table component matches.\<close>

definition boundKeys :: "string list" where
  "boundKeys =
     [''ctrl+c'', ''q'', ''s'', ''c'', ''+'', ''='', ''right'', ''-'', ''left'',
      ''y'', ''n'', ''esc'', ''enter'',
      ''up'', ''k'', ''down'', ''j'', ''b'', ''pgup'', ''f'', ''pgdown'', '' '',
      ''u'', ''ctrl+u'', ''d'', ''ctrl+d'', ''home'', ''g'', ''end'', ''G'']"

fun unrecognized :: "msg \<Rightarrow> bool" where
  "unrecognized (KeyMsg key) = (key \<notin> set boundKeys)"
| "unrecognized OtherMsg = True"
| "unrecognized (WindowSizeMsg w h) = False"

text \<open>
  A state with two items in the cart, on the Cart tab: the state after the keys
  \<^verbatim>\<open>+\<close>, \<^verbatim>\<open>down\<close>, \<^verbatim>\<open>+\<close>, \<^verbatim>\<open>c\<close>.
\<close>

definition twoItemCart :: model where
  "twoItemCart =
     initialModel
       \<lparr>table := \<lparr>cursor = 1, rows = shopRows ourBeverages [0 \<mapsto> 1, 1 \<mapsto> 1], viewportHeight = 6\<rparr>,
        cart := [0 \<mapsto> 1, 1 \<mapsto> 1],
        activeTab := 1\<rparr>"

text \<open>The same state with the checkout pending: the state after one more key, \<^verbatim>\<open>enter\<close>.\<close>

definition pendingCheckout :: model where
  "pendingCheckout = twoItemCart\<lparr>isCheckingOut := True\<rparr>"

text \<open>A state on the Cart tab whose cart holds one entry, of quantity zero: the state
  after the keys \<^verbatim>\<open>+\<close>, \<^verbatim>\<open>-\<close>, \<^verbatim>\<open>c\<close>.\<close>

definition zeroCart :: model where
  "zeroCart =
     initialModel
       \<lparr>table := \<lparr>cursor = 0, rows = shopRows ourBeverages [0 \<mapsto> 0], viewportHeight = 6\<rparr>,
        cart := [0 \<mapsto> 0],
        activeTab := 1\<rparr>"

text \<open>A state on the Shop tab with the cursor on the last item, Beer, and all of its
  stock in the cart.\<close>

definition beerAtStock :: model where
  "beerAtStock =
     initialModel
       \<lparr>table := \<lparr>cursor = 4, rows = shopRows ourBeverages [4 \<mapsto> 6], viewportHeight = 6\<rparr>,
        cart := [4 \<mapsto> 6]\<rparr>"

text \<open>A state on the Cart tab with three Club-Mate and two Fritz-Kola in the cart: the
  state after the keys \<^verbatim>\<open>+\<close>, \<^verbatim>\<open>+\<close>, \<^verbatim>\<open>+\<close>, \<^verbatim>\<open>down\<close>, \<^verbatim>\<open>down\<close>, \<^verbatim>\<open>+\<close>, \<^verbatim>\<open>+\<close>, \<^verbatim>\<open>c\<close>.\<close>

definition mixedCart :: model where
  "mixedCart =
     initialModel
       \<lparr>table := \<lparr>cursor = 2, rows = shopRows ourBeverages [0 \<mapsto> 3, 2 \<mapsto> 2], viewportHeight = 6\<rparr>,
        cart := [0 \<mapsto> 3, 2 \<mapsto> 2],
        activeTab := 1\<rparr>"

section \<open>The cart view in exact arithmetic\<close>

text \<open>
  The line total of an entry as a rational number, price \<open>\<times>\<close> quantity with nothing
  rounded, and the view that \<open>cartView\<close> gives when its sums and products are these.
\<close>

definition spec_lineTotal :: "model \<Rightarrow> int \<Rightarrow> rat" where
  "spec_lineTotal m k = Price (beverages m ! nat k) * of_int (cart_get (cart m) k)"

definition exact_line :: "model \<Rightarrow> int \<Rightarrow> string" where
  "exact_line m k = cartLine (cart_get (cart m) k) (beverages m ! nat k) (spec_lineTotal m k)"

definition exact_cartView :: "model \<Rightarrow> int \<Rightarrow> int \<Rightarrow> string" where
  "exact_cartView m a b =
     cartHeader @ exact_line m a @ exact_line m b @ cartSeparator @
     totalLine (spec_lineTotal m a + spec_lineTotal m b) @
     (if isCheckingOut m then cartConfirm else cartHint)"

section \<open>The cart view of the spec\<close>

text \<open>
  The cart view as the spec words it, for a cart with the two items \<open>a\<close> and \<open>b\<close> in this
  order, written out on its own and with none of the formatting functions of the model
  above: one line for each entry, \<^verbatim>\<open><qty>x <name padded to fixed width> @ <unit price>
  each = <line total>\<close>, a separator, and the total line with the sum of the line totals;
  every amount has the currency sign before it and two decimal places. The fixed texts
  and the width of 20 are those of the source.
\<close>

definition spec_digit :: "nat \<Rightarrow> char" where
  "spec_digit d = ''0123456789'' ! d"

text \<open>The decimal digits of a number, the least significant first.\<close>

function spec_digits :: "nat \<Rightarrow> nat list" where
  "spec_digits n = (if n < 10 then [n] else n mod 10 # spec_digits (n div 10))"
  by pat_completeness auto
termination
  by (relation "measure id") auto

declare spec_digits.simps [simp del]

definition spec_decimal :: "nat \<Rightarrow> string" where
  "spec_decimal n = map spec_digit (rev (spec_digits n))"

text \<open>An amount of whole cents with two decimal places: the units, a point, the tens
  and the units of the cents.\<close>

definition spec_two_places :: "rat \<Rightarrow> string" where
  "spec_two_places x =
     (let cents = nat \<lfloor>x * 100\<rfloor>
      in spec_decimal (cents div 100) @ ''.'' @
         [spec_digit (cents div 10 mod 10), spec_digit (cents mod 10)])"

definition spec_amount :: "rat \<Rightarrow> string" where
  "spec_amount x = [CHR 0xE2, CHR 0x82, CHR 0xAC] @ spec_two_places x"

definition spec_padded :: "string \<Rightarrow> string" where
  "spec_padded name = take (max 20 (length name)) (name @ replicate 20 (CHR '' ''))"

definition spec_line :: "model \<Rightarrow> int \<Rightarrow> string" where
  "spec_line m k =
     ''  '' @ spec_decimal (nat (cart_get (cart m) k)) @ ''x '' @
     spec_padded (Name (beverages m ! nat k)) @ '' @ '' @
     spec_amount (Price (beverages m ! nat k)) @ '' each = '' @
     spec_amount (spec_lineTotal m k) @ [CHR 0x0A]"

definition spec_totalLine :: "model \<Rightarrow> int \<Rightarrow> int \<Rightarrow> string" where
  "spec_totalLine m a b =
     ''  Total: '' @ spec_amount (spec_lineTotal m a + spec_lineTotal m b) @ [CHR 0x0A]"

definition spec_cartView :: "model \<Rightarrow> int \<Rightarrow> int \<Rightarrow> string" where
  "spec_cartView m a b =
     ''Your Current Order:'' @ [CHR 0x0A, CHR 0x0A] @
     spec_line m a @ spec_line m b @
     [CHR 0x0A] @ ''  -------------------------------------------'' @ [CHR 0x0A] @
     spec_totalLine m a b @
     [CHR 0x0A, CHR 0x0A] @
     (if isCheckingOut m
      then ''Confirm purchase? (y/n)'' @ [CHR 0x0A] @ ''(Press 'esc' or 'n' to cancel checkout)''
      else ''Press 'enter' to checkout.'')"

section \<open>Exact float64 results\<close>

text \<open>A half-integer below \<open>2\<^sup>5\<^sup>2\<close> is a float64: rounding leaves it as it is.\<close>

lemma round_half_even_of_int: "round_half_even (of_int z) = z"
  by (simp add: round_half_even_def)

lemma bitlen_le_52: "z < 2 ^ 52 \<Longrightarrow> bitlen z \<le> 52"
  by (simp add: bitlen_le_iff_power)

lemma flog2_le_51:
  assumes "0 < x" "x < 2 ^ 52"
  shows "flog2 x \<le> 51"
proof (cases "1 \<le> x")
  case True
  have "\<lfloor>x\<rfloor> < 2 ^ 52" using assms(2) by (simp add: floor_less_iff)
  then have "bitlen \<lfloor>x\<rfloor> \<le> 52" by (rule bitlen_le_52)
  with True show ?thesis by (simp add: flog2_def)
next
  case False
  have "0 \<le> bitlen (\<lceil>1 / x\<rceil> - 1)" by (rule bitlen_nonneg)
  with False show ?thesis by (simp add: flog2_def)
qed

lemma f64_round_half:
  assumes "0 \<le> n" "n < 2 ^ 53"
  shows "f64_round (of_int n / 2) = of_int n / 2"
proof (cases "n = 0")
  case True
  then show ?thesis by (simp add: f64_round_def)
next
  case False
  define x :: rat where "x = of_int n / 2"
  have xpos: "0 < x" using assms False by (simp add: x_def)
  have "of_int n < (2::rat) ^ 53" using assms(2) by (metis of_int_less_iff of_int_numeral of_int_power)
  then have xlt: "x < 2 ^ 52" by (simp add: x_def)
  define e where "e = max (flog2 \<bar>x\<bar> - 52) (- 1074)"
  have e_le: "e \<le> - 1" using flog2_le_51 [OF xpos xlt] xpos by (simp add: e_def)
  define k where "k = nat (- e) - 1"
  have ne: "nat (- e) = Suc k" using e_le by (simp add: k_def)
  have p: "pow2 e = 1 / 2 ^ Suc k" using e_le ne by (simp add: pow2_def)
  have q: "x / pow2 e = of_int (n * 2 ^ k)" by (simp add: p x_def)
  have "f64_round x = of_int (round_half_even (x / pow2 e)) * pow2 e"
    using xpos by (simp add: f64_round_def e_def Let_def)
  also have "\<dots> = of_int (n * 2 ^ k) * pow2 e" by (simp only: q round_half_even_of_int)
  also have "\<dots> = x" by (simp add: p x_def)
  finally show ?thesis by (simp add: x_def)
qed

section \<open>The table component and the quantity keys\<close>

lemma clamp_range: "0 < n \<Longrightarrow> 0 \<le> clamp v 0 (n - 1) \<and> clamp v 0 (n - 1) < n"
  by (simp add: clamp_def)

lemma table_Update_cursor:
  assumes "0 \<le> cursor t" "cursor t < int (length (rows t))"
  shows "0 \<le> cursor (table_Update t key) \<and> cursor (table_Update t key) < int (length (rows t))"
proof -
  have n: "0 < int (length (rows t))" using assms by linarith
  have up: "0 \<le> cursor (MoveUp d t) \<and> cursor (MoveUp d t) < int (length (rows t))" for d
    using clamp_range [OF n] by (simp add: MoveUp_def)
  have down: "0 \<le> cursor (MoveDown d t) \<and> cursor (MoveDown d t) < int (length (rows t))" for d
    using clamp_range [OF n] by (simp add: MoveDown_def)
  show ?thesis
    unfolding table_Update_def using assms up down by (simp only: split: if_split) blast
qed

lemma table_Update_rows: "rows (table_Update t key) = rows t"
  by (simp add: table_Update_def MoveUp_def MoveDown_def)

lemma table_Update_unbound: "key \<notin> set boundKeys \<Longrightarrow> table_Update t key = t"
  by (simp add: table_Update_def boundKeys_def)

lemma length_shopRows: "length (shopRows bs c) = length bs"
  by (simp add: shopRows_def)

lemma hasItems_range_iff: "hasItems_range ks c \<longleftrightarrow> (\<exists>k\<in>set ks. 0 < cart_get c k)"
  by (induction ks) auto

lemma hasItems_range_order:
  "range_order ks c \<Longrightarrow> hasItems_range ks c \<longleftrightarrow> (\<exists>k q. c k = Some q \<and> 0 < q)"
  unfolding hasItems_range_iff range_order_def
  by (auto simp: cart_get_def dom_def split: option.splits)

lemma bounds_inv_incr:
  assumes "bounds_inv m" and "cart_get (cart m) (cursor (table m)) < Stock (beverages m ! nat (cursor (table m)))"
  shows "bounds_inv (m\<lparr>cart := (cart m)(cursor (table m) \<mapsto> cart_get (cart m) (cursor (table m)) + 1)\<rparr>)"
proof -
  have "0 \<le> cart_get (cart m) (cursor (table m))"
    using assms(1) by (cases "cart m (cursor (table m))") (auto simp: bounds_inv_def cart_get_def)
  with assms show ?thesis by (auto simp: bounds_inv_def)
qed

lemma bounds_inv_decr:
  assumes "bounds_inv m" and "0 < cart_get (cart m) (cursor (table m))"
  shows "bounds_inv (m\<lparr>cart := (cart m)(cursor (table m) \<mapsto> cart_get (cart m) (cursor (table m)) - 1)\<rparr>)"
proof -
  obtain q where q: "cart m (cursor (table m)) = Some q"
    using assms(2) by (cases "cart m (cursor (table m))") (auto simp: cart_get_def)
  then have "cart_get (cart m) (cursor (table m)) \<le> Stock (beverages m ! nat (cursor (table m)))"
    using assms(1) by (auto simp: bounds_inv_def cart_get_def)
  with assms show ?thesis by (auto simp: bounds_inv_def)
qed

lemma shopKeys_cases:
  assumes "0 \<le> cursor (table m)" "cursor (table m) < int (length (beverages m))"
  shows "shopKeys m key = Inr m \<or>
         (cart_get (cart m) (cursor (table m)) < Stock (beverages m ! nat (cursor (table m))) \<and>
          shopKeys m key =
            Inr (m\<lparr>cart := (cart m)(cursor (table m) \<mapsto> cart_get (cart m) (cursor (table m)) + 1)\<rparr>)) \<or>
         (0 < cart_get (cart m) (cursor (table m)) \<and>
          shopKeys m key =
            Inr (m\<lparr>cart := (cart m)(cursor (table m) \<mapsto> cart_get (cart m) (cursor (table m)) - 1)\<rparr>))"
  using assms by (simp add: shopKeys_def index_slice_def Let_def)

lemma shopKeys_inv:
  assumes "bounds_inv m"
  shows "\<exists>m1. shopKeys m key = Inr m1 \<and> bounds_inv m1 \<and> beverages m1 = beverages m \<and>
           table m1 = table m \<and> activeTab m1 = activeTab m \<and> isCheckingOut m1 = isCheckingOut m \<and>
           width m1 = width m \<and> height m1 = height m"
proof -
  have c: "0 \<le> cursor (table m)" "cursor (table m) < int (length (beverages m))"
    using assms by (simp_all add: bounds_inv_def)
  from shopKeys_cases [OF c, of key] show ?thesis
    using assms bounds_inv_incr [of m] bounds_inv_decr [of m] by auto
qed

section \<open>The update function keeps the states\<close>

lemma tabKeys_fields:
  "beverages (tabKeys m key) = beverages m" "table (tabKeys m key) = table m"
  "cart (tabKeys m key) = cart m" "width (tabKeys m key) = width m" "height (tabKeys m key) = height m"
  by (simp_all add: tabKeys_def)

lemma tabKeys_inv:
  assumes "model_inv m"
  shows "model_inv (tabKeys m key)"
proof -
  consider "key = ''s''" | "key \<noteq> ''s''" "key = ''c''" | "key \<noteq> ''s''" "key \<noteq> ''c''"
    by blast
  then show ?thesis
  proof cases
    case 1
    with assms show ?thesis by (simp add: tabKeys_def model_inv_def bounds_inv_def)
  next
    case 2
    with assms show ?thesis by (simp add: tabKeys_def model_inv_def bounds_inv_def)
  next
    case 3
    with assms show ?thesis by (simp add: tabKeys_def)
  qed
qed

lemma shopTab_inv:
  assumes "model_inv m" "activeTab m = 0"
  shows "\<exists>m'. shopTab m key = Inr (m', None) \<and> model_inv m' \<and> beverages m' = beverages m"
proof -
  from assms(1) have b: "bounds_inv m" by (simp add: model_inv_def)
  from shopKeys_inv [OF b, of key] obtain m1 where
    m1: "shopKeys m key = Inr m1" "bounds_inv m1" "beverages m1 = beverages m" "table m1 = table m"
        "activeTab m1 = activeTab m" "isCheckingOut m1 = isCheckingOut m"
    by blast
  define t where "t = SetRows (shopRows (beverages m1) (cart m1)) (table m1)"
  have rt: "rows t = shopRows (beverages m1) (cart m1)" and ct: "cursor t = cursor (table m1)"
    by (simp_all add: t_def SetRows_def)
  have len: "int (length (rows t)) = int (length (beverages m1))"
    by (simp add: rt length_shopRows)
  have cur: "0 \<le> cursor t" "cursor t < int (length (rows t))"
    using m1(2) by (simp_all add: ct len bounds_inv_def)
  define m' where "m' = m1\<lparr>table := table_Update t key\<rparr>"
  have res: "shopTab m key = Inr (m', None)"
    by (simp add: shopTab_def m1(1) m'_def t_def)
  have nc: "\<not> isCheckingOut m'"
    using assms by (auto simp: m'_def m1 model_inv_def)
  have "bounds_inv m'"
    using m1(2) table_Update_cursor [OF cur, of key] by (simp add: bounds_inv_def m'_def len)
  moreover have "rows (table m') = shopRows (beverages m') (cart m')"
    by (simp add: m'_def table_Update_rows rt)
  moreover have "activeTab m' = 0" using assms(2) by (simp add: m'_def m1)
  ultimately have "model_inv m'" using nc by (simp add: model_inv_def)
  with res show ?thesis by (auto simp: m'_def m1)
qed

lemma cartTab_inv:
  assumes "model_inv m" "activeTab m = 1" "range_order ks (cart m)" "cartTab ks m key = (m', c)"
  shows "model_inv m' \<and> beverages m' = beverages m"
proof -
  have "m' = m \<or> m' = m\<lparr>isCheckingOut := False\<rparr> \<or>
        (m' = m\<lparr>isCheckingOut := True\<rparr> \<and> hasItems_range ks (cart m))"
    using assms(4) by (auto simp: cartTab_def split: if_splits)
  then show ?thesis
    using assms(1,2) hasItems_range_order [OF assms(3)]
    by (elim disjE conjE) (simp_all add: model_inv_def bounds_inv_def)
qed

lemma Update_inv:
  assumes "model_inv m" "range_order ks (cart m)" "Update ks m ev = Inr (m', c)"
  shows "model_inv m' \<and> beverages m' = beverages m"
proof (cases ev)
  case (WindowSizeMsg w h)
  with assms(3) have "m' = m\<lparr>width := w, height := h\<rparr>" by (auto simp: Update_def)
  with assms(1) show ?thesis by (simp add: model_inv_def bounds_inv_def)
next
  case OtherMsg
  with assms show ?thesis by (auto simp: Update_def)
next
  case (KeyMsg key)
  show ?thesis
  proof (cases "key \<in> set [''ctrl+c'', ''q'']")
    case True
    with assms KeyMsg show ?thesis by (auto simp: Update_def)
  next
    case False
    define m1 where "m1 = tabKeys m key"
    have i1: "model_inv m1" using assms(1) by (simp add: m1_def tabKeys_inv)
    have r1: "range_order ks (cart m1)" using assms(2) by (simp add: m1_def tabKeys_fields)
    have b1: "beverages m1 = beverages m" by (simp add: m1_def tabKeys_fields)
    from i1 have "activeTab m1 = 0 \<or> activeTab m1 = 1" by (simp add: model_inv_def)
    then show ?thesis
    proof
      assume t0: "activeTab m1 = 0"
      with assms(3) KeyMsg False have "shopTab m1 key = Inr (m', c)"
        by (simp add: Update_def m1_def Let_def)
      with shopTab_inv [OF i1 t0, of key] b1 show ?thesis by auto
    next
      assume t1: "activeTab m1 = 1"
      with assms(3) KeyMsg False have "cartTab ks m1 key = (m', c)"
        by (simp add: Update_def m1_def Let_def)
      from cartTab_inv [OF i1 t1 r1 this] b1 show ?thesis by simp
    qed
  qed
qed

lemma Update_total:
  assumes "model_inv m"
  shows "\<exists>m' c. Update ks m ev = Inr (m', c)"
proof (cases ev)
  case (KeyMsg key)
  define m1 where "m1 = tabKeys m key"
  have i1: "model_inv m1" using assms(1) by (simp add: m1_def tabKeys_inv)
  show ?thesis
  proof (cases "activeTab m1 = 0")
    case True
    from shopTab_inv [OF i1 True, of key] show ?thesis
      using KeyMsg True by (auto simp: Update_def m1_def Let_def)
  next
    case False
    then show ?thesis using KeyMsg
      by (cases "cartTab ks m1 key") (auto simp: Update_def m1_def Let_def)
  qed
qed (simp_all add: Update_def)

lemma initialModel_inv: "model_inv initialModel"
  by (simp add: model_inv_def bounds_inv_def initialModel_def ourBeverages_def)

lemma reachable_inv: "reachable m \<Longrightarrow> model_inv m \<and> beverages m = ourBeverages"
proof (induction rule: reachable.induct)
  case init
  show ?case using initialModel_inv by (simp add: initialModel_def)
next
  case (step m ks ev m' c)
  then show ?case using Update_inv [of m ks ev m' c] by simp
qed

section \<open>Concrete runs\<close>

lemmas eval_defs =
  Update_def tabKeys_def shopTab_def shopKeys_def cartTab_def index_slice_def cart_get_def
  SetRows_def table_Update_def MoveUp_def MoveDown_def clamp_def Let_def

lemma reachable_twoItemCart: "reachable twoItemCart"
proof -
  define m1 where "m1 = initialModel\<lparr>cart := [0 \<mapsto> 1],
    table := \<lparr>cursor = 0, rows = shopRows ourBeverages [0 \<mapsto> 1], viewportHeight = 6\<rparr>\<rparr>"
  define m2 where "m2 = m1\<lparr>table := \<lparr>cursor = 1, rows = shopRows ourBeverages [0 \<mapsto> 1], viewportHeight = 6\<rparr>\<rparr>"
  define m3 where "m3 = m2\<lparr>cart := [0 \<mapsto> 1, 1 \<mapsto> 1],
    table := \<lparr>cursor = 1, rows = shopRows ourBeverages [0 \<mapsto> 1, 1 \<mapsto> 1], viewportHeight = 6\<rparr>\<rparr>"
  have len: "length (shopRows ourBeverages c) = 5" for c
    by (simp add: length_shopRows ourBeverages_def)
  have u1: "Update [] initialModel (KeyMsg ''+'') = Inr (m1, None)"
    by (simp add: eval_defs initialModel_def m1_def ourBeverages_def)
  have u2: "Update [0] m1 (KeyMsg ''down'') = Inr (m2, None)"
    by (simp add: eval_defs initialModel_def m1_def m2_def len)
  have u3: "Update [0] m2 (KeyMsg ''+'') = Inr (m3, None)"
    by (simp add: eval_defs initialModel_def m1_def m2_def m3_def ourBeverages_def)
  have u4: "Update [0, 1] m3 (KeyMsg ''c'') = Inr (twoItemCart, None)"
    by (simp add: eval_defs initialModel_def m1_def m2_def m3_def twoItemCart_def)
  have r1: "reachable m1"
    by (rule reachable.step [OF reachable.init _ u1]) (simp add: range_order_def initialModel_def)
  have r2: "reachable m2"
    by (rule reachable.step [OF r1 _ u2]) (simp add: range_order_def m1_def)
  have r3: "reachable m3"
    by (rule reachable.step [OF r2 _ u3]) (simp add: range_order_def m1_def m2_def)
  show ?thesis
    by (rule reachable.step [OF r3 _ u4]) (auto simp: range_order_def m3_def)
qed

lemma range_order_twoItemCart:
  "range_order [0, 1] (cart twoItemCart)" "range_order [1, 0] (cart twoItemCart)"
  by (auto simp: range_order_def twoItemCart_def)

lemma Update_enter_twoItemCart:
  "Update [0, 1] twoItemCart (KeyMsg ''enter'') = Inr (pendingCheckout, None)"
  by (simp add: eval_defs twoItemCart_def pendingCheckout_def initialModel_def)

lemma reachable_pendingCheckout: "reachable pendingCheckout"
  by (rule reachable.step [OF reachable_twoItemCart range_order_twoItemCart(1) Update_enter_twoItemCart])


lemma reachable_zeroCart: "reachable zeroCart"
proof -
  define m1 where "m1 = initialModel\<lparr>cart := [0 \<mapsto> 1],
    table := \<lparr>cursor = 0, rows = shopRows ourBeverages [0 \<mapsto> 1], viewportHeight = 6\<rparr>\<rparr>"
  define m2 where "m2 = m1\<lparr>cart := [0 \<mapsto> 0],
    table := \<lparr>cursor = 0, rows = shopRows ourBeverages [0 \<mapsto> 0], viewportHeight = 6\<rparr>\<rparr>"
  have u1: "Update [] initialModel (KeyMsg ''+'') = Inr (m1, None)"
    by (simp add: eval_defs initialModel_def m1_def ourBeverages_def)
  have u2: "Update [0] m1 (KeyMsg ''-'') = Inr (m2, None)"
    by (simp add: eval_defs initialModel_def m1_def m2_def)
  have u3: "Update [0] m2 (KeyMsg ''c'') = Inr (zeroCart, None)"
    by (simp add: eval_defs initialModel_def m1_def m2_def zeroCart_def)
  have r1: "reachable m1"
    by (rule reachable.step [OF reachable.init _ u1]) (simp add: range_order_def initialModel_def)
  have r2: "reachable m2"
    by (rule reachable.step [OF r1 _ u2]) (simp add: range_order_def m1_def)
  show ?thesis
    by (rule reachable.step [OF r2 _ u3]) (simp add: range_order_def m2_def)
qed

section \<open>The claims about the update function\<close>

text \<open>
  C1. In every reachable state the cursor is an index into the catalog and every entry of
  the cart belongs to a catalog item and holds a quantity between 0 and the stock of that
  item. The reachable states are closed under every transition, those at the stock
  ceiling and at zero included.
\<close>

theorem reachable_bounds:
  assumes "reachable m"
  shows "0 \<le> cursor (table m) \<and> cursor (table m) < int (length ourBeverages) \<and>
         (\<forall>k q. cart m k = Some q \<longrightarrow>
            0 \<le> k \<and> k < int (length ourBeverages) \<and> 0 \<le> q \<and> q \<le> Stock (ourBeverages ! nat k))"
proof -
  from reachable_inv [OF assms] have "bounds_inv m" "beverages m = ourBeverages"
    by (simp_all add: model_inv_def)
  then show ?thesis by (simp add: bounds_inv_def)
qed

theorem reachable_bounds_witness:
  "reachable twoItemCart \<and> cursor (table twoItemCart) = 1 \<and> length ourBeverages = 5 \<and>
   cart twoItemCart 1 = Some 1 \<and> Stock (ourBeverages ! nat 1) = 50"
  using reachable_bounds [OF reachable_twoItemCart] reachable_twoItemCart
  by (simp add: twoItemCart_def ourBeverages_def)

text \<open>
  C2. On every state of the data model (\<open>model_inv\<close>, which holds in every reachable
  state) and for every message, \<open>Update\<close> returns a model and never panics; a message
  that no branch matches (a key bound nowhere, or a message that is neither a key nor a
  resize) returns the state as it was.
\<close>

theorem Update_never_fails:
  assumes "model_inv m"
  shows "(\<exists>m' c. Update ks m ev = Inr (m', c)) \<and>
         (unrecognized ev \<longrightarrow> Update ks m ev = Inr (m, None))"
proof
  show "\<exists>m' c. Update ks m ev = Inr (m', c)" using assms by (rule Update_total)
  show "unrecognized ev \<longrightarrow> Update ks m ev = Inr (m, None)"
  proof
    assume u: "unrecognized ev"
    show "Update ks m ev = Inr (m, None)"
    proof (cases ev)
      case (KeyMsg key)
      with u have nb: "key \<notin> set boundKeys" by simp
      then have k: "key \<notin> set [''ctrl+c'', ''q'']" "tabKeys m key = m" "shopKeys m key = Inr m"
        "cartTab ks m key = (m, None)"
        by (simp_all add: boundKeys_def tabKeys_def shopKeys_def cartTab_def)
      have r: "rows (table m) = shopRows (beverages m) (cart m)"
        using assms by (simp add: model_inv_def)
      have "shopTab m key = Inr (m, None)"
        by (simp add: shopTab_def k SetRows_def r [symmetric] table_Update_unbound [OF nb])
      moreover have "activeTab m = 0 \<or> activeTab m = 1" using assms by (simp add: model_inv_def)
      ultimately show ?thesis using KeyMsg k by (auto simp: Update_def)
    qed (use u in \<open>simp_all add: Update_def\<close>)
  qed
qed

theorem Update_never_fails_witness:
  "model_inv initialModel \<and> unrecognized (KeyMsg ''x'') \<and>
   Update [] initialModel (KeyMsg ''x'') = Inr (initialModel, None) \<and>
   (\<exists>m' c. Update [] initialModel (KeyMsg ''+'') = Inr (m', c))"
  using Update_never_fails [OF initialModel_inv, of "[]" "KeyMsg ''x''"]
    Update_never_fails [OF initialModel_inv, of "[]" "KeyMsg ''+''"] initialModel_inv
  by (simp add: boundKeys_def)

section \<open>Boundaries, tabs and the checkout\<close>

lemma quantity_key:
  assumes "key \<in> set [''+'', ''='', ''right'', ''-'', ''left'']"
  shows "table_Update t key = t" "tabKeys m key = m" "key \<notin> set [''ctrl+c'', ''q'']"
proof -
  from assms have "key = ''+'' \<or> key = ''='' \<or> key = ''right'' \<or> key = ''-'' \<or> key = ''left''"
    by simp
  then have "table_Update t key = t \<and> tabKeys m key = m \<and> key \<notin> set [''ctrl+c'', ''q'']"
    by (elim disjE) (simp_all add: table_Update_def tabKeys_def)
  then show "table_Update t key = t" "tabKeys m key = m" "key \<notin> set [''ctrl+c'', ''q'']"
    by simp_all
qed

lemma shopTab_noop:
  assumes "rows (table m) = shopRows (beverages m) (cart m)" "shopKeys m key = Inr m"
    "key \<in> set [''+'', ''='', ''right'', ''-'', ''left'']"
  shows "shopTab m key = Inr (m, None)"
  by (simp add: shopTab_def assms(2) SetRows_def assms(1) [symmetric] quantity_key(1) [OF assms(3)])

text \<open>
  C4. In Shop.Browsing, an increment key when the quantity at the cursor equals the stock
  of that item, and a decrement key when the quantity at the cursor is 0, return the
  state as it was, and no panic.
\<close>

theorem boundary_noop:
  assumes "model_inv m" "activeTab m = 0"
  shows "(key \<in> set [''+'', ''='', ''right''] \<and>
          cart_get (cart m) (cursor (table m)) = Stock (beverages m ! nat (cursor (table m)))
            \<longrightarrow> Update ks m (KeyMsg key) = Inr (m, None)) \<and>
         (key \<in> set [''-'', ''left''] \<and> cart_get (cart m) (cursor (table m)) = 0
            \<longrightarrow> Update ks m (KeyMsg key) = Inr (m, None))"
proof -
  have r: "rows (table m) = shopRows (beverages m) (cart m)"
    and c: "0 \<le> cursor (table m)" "cursor (table m) < int (length (beverages m))"
    using assms(1) by (simp_all add: model_inv_def bounds_inv_def)
  have up: "Update ks m (KeyMsg key) = Inr (m, None)"
    if k: "key \<in> set [''+'', ''='', ''right'', ''-'', ''left'']" and s: "shopKeys m key = Inr m"
    using shopTab_noop [OF r s k] assms(2) quantity_key(2,3) [OF k]
    by (simp add: Update_def)
  have "Update ks m (KeyMsg key) = Inr (m, None)"
    if "key \<in> set [''+'', ''='', ''right'']"
      "cart_get (cart m) (cursor (table m)) = Stock (beverages m ! nat (cursor (table m)))"
  proof (rule up)
    show "key \<in> set [''+'', ''='', ''right'', ''-'', ''left'']" using that(1) by auto
    from that(1) have "key = ''+'' \<or> key = ''='' \<or> key = ''right''" by simp
    then show "shopKeys m key = Inr m"
      using c by (elim disjE) (simp_all add: shopKeys_def index_slice_def Let_def that(2))
  qed
  moreover have "Update ks m (KeyMsg key) = Inr (m, None)"
    if "key \<in> set [''-'', ''left'']" "cart_get (cart m) (cursor (table m)) = 0"
  proof (rule up)
    show "key \<in> set [''+'', ''='', ''right'', ''-'', ''left'']" using that(1) by auto
    from that(1) have "key = ''-'' \<or> key = ''left''" by simp
    then show "shopKeys m key = Inr m"
      by (elim disjE) (simp_all add: shopKeys_def Let_def that(2))
  qed
  ultimately show ?thesis by blast
qed


lemma beerAtStock_inv: "model_inv beerAtStock"
  by (simp add: model_inv_def bounds_inv_def beerAtStock_def initialModel_def ourBeverages_def)

theorem boundary_noop_witness:
  "model_inv beerAtStock \<and> activeTab beerAtStock = 0 \<and>
   cart_get (cart beerAtStock) (cursor (table beerAtStock)) =
     Stock (beverages beerAtStock ! nat (cursor (table beerAtStock))) \<and>
   Update [4] beerAtStock (KeyMsg ''right'') = Inr (beerAtStock, None) \<and>
   model_inv initialModel \<and> activeTab initialModel = 0 \<and>
   cart_get (cart initialModel) (cursor (table initialModel)) = 0 \<and>
   Update [] initialModel (KeyMsg ''left'') = Inr (initialModel, None)"
  using boundary_noop [OF beerAtStock_inv, of "''right''" "[4]"]
    boundary_noop [OF initialModel_inv, of "''left''" "[]"] beerAtStock_inv initialModel_inv
  by (simp add: beerAtStock_def initialModel_def ourBeverages_def cart_get_def)

text \<open>
  C5. In every reachable state the checkout is pending only on the Cart tab, and the key
  \<^verbatim>\<open>s\<close> (switch to Shop), from any state at all, gives a state on the Shop tab with no
  checkout pending.
\<close>

theorem switch_to_shop:
  "(reachable m \<longrightarrow> isCheckingOut m \<longrightarrow> activeTab m = 1) \<and>
   (\<exists>m'. Update ks m (KeyMsg ''s'') = Inr (m', None) \<and> activeTab m' = 0 \<and> \<not> isCheckingOut m')"
proof
  show "reachable m \<longrightarrow> isCheckingOut m \<longrightarrow> activeTab m = 1"
    using reachable_inv [of m] by (simp add: model_inv_def)
  show "\<exists>m'. Update ks m (KeyMsg ''s'') = Inr (m', None) \<and> activeTab m' = 0 \<and> \<not> isCheckingOut m'"
    by (simp add: Update_def tabKeys_def shopTab_def shopKeys_def)
qed

theorem switch_to_shop_witness:
  "reachable pendingCheckout \<and> isCheckingOut pendingCheckout \<and> activeTab pendingCheckout = 1 \<and>
   (\<exists>m'. Update [0, 1] pendingCheckout (KeyMsg ''s'') = Inr (m', None) \<and> activeTab m' = 0 \<and>
      \<not> isCheckingOut m')"
  using switch_to_shop [of pendingCheckout "[0, 1]"] reachable_pendingCheckout
  by (simp add: pendingCheckout_def)

text \<open>
  C6. In Cart.Reviewing with all quantities of the cart zero, the key \<^verbatim>\<open>enter\<close>
  returns the state as it was: the checkout does not become pending.
\<close>

theorem confirm_empty_cart:
  assumes "activeTab m = 1" "\<not> isCheckingOut m" "\<forall>k q. cart m k = Some q \<longrightarrow> q = 0"
  shows "Update ks m (KeyMsg ''enter'') = Inr (m, None)"
proof -
  have "cart_get (cart m) k = 0" for k
    using assms(3) by (cases "cart m k") (simp_all add: cart_get_def)
  then have "\<not> hasItems_range ks (cart m)" by (simp add: hasItems_range_iff)
  with assms(1,2) show ?thesis by (simp add: Update_def tabKeys_def cartTab_def)
qed

theorem confirm_empty_cart_witness:
  "reachable zeroCart \<and> activeTab zeroCart = 1 \<and> \<not> isCheckingOut zeroCart \<and> cart zeroCart = [0 \<mapsto> 0] \<and>
   Update [0] zeroCart (KeyMsg ''enter'') = Inr (zeroCart, None)"
proof -
  have h: "activeTab zeroCart = 1" "\<not> isCheckingOut zeroCart" "\<forall>k q. cart zeroCart k = Some q \<longrightarrow> q = 0"
    by (simp_all add: zeroCart_def initialModel_def)
  have c: "cart zeroCart = [0 \<mapsto> 0]" by (simp add: zeroCart_def)
  from confirm_empty_cart [OF h, of "[0]"] h(1,2) c reachable_zeroCart show ?thesis by simp
qed

text \<open>
  C7. On the Cart tab: in Cart.Reviewing with some quantity above 0, \<^verbatim>\<open>enter\<close> sets the
  pending checkout; in Cart.ConfirmingCheckout, \<^verbatim>\<open>n\<close> and \<^verbatim>\<open>esc\<close> clear it and leave the
  tab as it is, and \<^verbatim>\<open>y\<close> returns the quit command.
\<close>

theorem checkout_flow:
  assumes "activeTab m = 1"
  shows "(\<not> isCheckingOut m \<and> range_order ks (cart m) \<and> (\<exists>k q. cart m k = Some q \<and> 0 < q)
            \<longrightarrow> Update ks m (KeyMsg ''enter'') = Inr (m\<lparr>isCheckingOut := True\<rparr>, None)) \<and>
         (isCheckingOut m \<and> key \<in> set [''n'', ''esc'']
            \<longrightarrow> Update ks m (KeyMsg key) = Inr (m\<lparr>isCheckingOut := False\<rparr>, None) \<and>
                activeTab (m\<lparr>isCheckingOut := False\<rparr>) = 1) \<and>
         (isCheckingOut m \<longrightarrow> Update ks m (KeyMsg ''y'') = Inr (m, Some Quit))"
proof (intro conjI impI)
  assume a: "\<not> isCheckingOut m \<and> range_order ks (cart m) \<and> (\<exists>k q. cart m k = Some q \<and> 0 < q)"
  then have "hasItems_range ks (cart m)" using hasItems_range_order [of ks "cart m"] by blast
  with a assms show "Update ks m (KeyMsg ''enter'') = Inr (m\<lparr>isCheckingOut := True\<rparr>, None)"
    by (simp add: Update_def tabKeys_def cartTab_def)
next
  assume a: "isCheckingOut m \<and> key \<in> set [''n'', ''esc'']"
  then have "key = ''n'' \<or> key = ''esc''" by simp
  then show "Update ks m (KeyMsg key) = Inr (m\<lparr>isCheckingOut := False\<rparr>, None)"
    using a assms by (elim disjE) (simp_all add: Update_def tabKeys_def cartTab_def)
next
  show "activeTab (m\<lparr>isCheckingOut := False\<rparr>) = 1" using assms by simp
next
  assume "isCheckingOut m"
  with assms show "Update ks m (KeyMsg ''y'') = Inr (m, Some Quit)"
    by (simp add: Update_def tabKeys_def cartTab_def)
qed

theorem checkout_flow_witness:
  "activeTab twoItemCart = 1 \<and> \<not> isCheckingOut twoItemCart \<and> range_order [0, 1] (cart twoItemCart) \<and>
   cart twoItemCart 0 = Some 1 \<and>
   Update [0, 1] twoItemCart (KeyMsg ''enter'') = Inr (pendingCheckout, None) \<and>
   activeTab pendingCheckout = 1 \<and> isCheckingOut pendingCheckout \<and>
   Update [0, 1] pendingCheckout (KeyMsg ''n'') = Inr (twoItemCart, None) \<and>
   Update [0, 1] pendingCheckout (KeyMsg ''y'') = Inr (pendingCheckout, Some Quit)"
proof -
  have t: "activeTab twoItemCart = 1" "\<not> isCheckingOut twoItemCart" "cart twoItemCart 0 = Some 1"
    by (simp_all add: twoItemCart_def initialModel_def)
  have p: "activeTab pendingCheckout = 1" "isCheckingOut pendingCheckout"
    "pendingCheckout\<lparr>isCheckingOut := False\<rparr> = twoItemCart"
    by (simp_all add: pendingCheckout_def twoItemCart_def initialModel_def)
  have e: "\<exists>k q. cart twoItemCart k = Some q \<and> 0 < q" using t(3) by force
  from checkout_flow [OF t(1), of "[0, 1]" "''n''"] checkout_flow [OF p(1), of "[0, 1]" "''n''"]
    t p e range_order_twoItemCart(1)
  show ?thesis by (simp add: pendingCheckout_def)
qed

text \<open>
  C8. A resize message changes the width and the height of the model and nothing
  else; it never panics and returns no command.
\<close>

theorem resize_frame:
  "Update ks m (WindowSizeMsg w h) = Inr (m\<lparr>width := w, height := h\<rparr>, None) \<and>
   activeTab (m\<lparr>width := w, height := h\<rparr>) = activeTab m \<and>
   table (m\<lparr>width := w, height := h\<rparr>) = table m \<and>
   cart (m\<lparr>width := w, height := h\<rparr>) = cart m \<and>
   isCheckingOut (m\<lparr>width := w, height := h\<rparr>) = isCheckingOut m \<and>
   beverages (m\<lparr>width := w, height := h\<rparr>) = beverages m"
  by (simp add: Update_def)

section \<open>The cart view\<close>

lemma cartLoop_skip:
  "cartLoop bs c ks acc = cartLoop bs c (filter (\<lambda>k. 0 < cart_get c k) ks) acc"
proof (induction ks arbitrary: acc)
  case Nil
  show ?case by simp
next
  case (Cons k ks)
  obtain t h s where acc: "acc = (t, h, s)" by (cases acc)
  show ?case
  proof (cases "0 < cart_get c k")
    case True
    then show ?thesis
      by (cases "index_slice bs k") (simp_all add: acc Let_def Cons.IH)
  next
    case False
    then show ?thesis by (simp add: acc Cons.IH)
  qed
qed

lemma filter_two:
  assumes "distinct ks" "{k \<in> set ks. P k} = {i, j}" "i \<noteq> j"
  shows "filter P ks = [i, j] \<or> filter P ks = [j, i]"
proof -
  have d: "distinct (filter P ks)" using assms(1) by simp
  have s: "set (filter P ks) = {i, j}" using assms(2) by auto
  from d s assms(3) have "length (filter P ks) = 2"
    by (metis card_2_iff distinct_card)
  then obtain a b where ab: "filter P ks = [a, b]"
    by (metis (no_types) One_nat_def Suc_1 length_0_conv length_Suc_conv)
  with s have "{a, b} = {i, j}" by simp
  then have "(a = i \<and> b = j) \<or> (a = j \<and> b = i)" by (auto simp: doubleton_eq_iff)
  with ab show ?thesis by auto
qed

lemma catalog_item:
  assumes "0 \<le> k" "k < int (length ourBeverages)"
  shows "\<exists>p. 0 \<le> p \<and> p \<le> 5 \<and> Price (ourBeverages ! nat k) = of_int p / 2 \<and>
             Stock (ourBeverages ! nat k) \<le> 100"
proof -
  from assms have "k = 0 \<or> k = 1 \<or> k = 2 \<or> k = 3 \<or> k = 4"
    by (auto simp: ourBeverages_def)
  then show ?thesis
  proof (elim disjE)
    assume "k = 0" then show ?thesis by (intro exI [of _ 3]) (simp add: ourBeverages_def)
  next
    assume "k = 1" then show ?thesis by (intro exI [of _ 2]) (simp add: ourBeverages_def)
  next
    assume "k = 2" then show ?thesis by (intro exI [of _ 4]) (simp add: ourBeverages_def)
  next
    assume "k = 3" then show ?thesis by (intro exI [of _ 1]) (simp add: ourBeverages_def)
  next
    assume "k = 4" then show ?thesis by (intro exI [of _ 5]) (simp add: ourBeverages_def)
  qed
qed

lemma f64_of_int_exact:
  assumes "0 \<le> q" "q < 2 ^ 52"
  shows "f64_of_int q = of_int q"
proof -
  have "f64_round (of_int (2 * q) / 2) = of_int (2 * q) / 2"
    using assms by (intro f64_round_half) simp_all
  then show ?thesis by (simp add: f64_of_int_def)
qed

lemma item_exact:
  assumes "0 \<le> k" "k < int (length ourBeverages)" "0 \<le> q" "q \<le> Stock (ourBeverages ! nat k)"
  shows "f64_mul (Price (ourBeverages ! nat k)) (f64_of_int q) = Price (ourBeverages ! nat k) * of_int q \<and>
         (\<exists>n. 0 \<le> n \<and> n \<le> 500 \<and> Price (ourBeverages ! nat k) * of_int q = of_int n / 2)"
proof -
  from catalog_item [OF assms(1,2)] obtain p where
    p: "0 \<le> p" "p \<le> 5" "Price (ourBeverages ! nat k) = of_int p / 2" "Stock (ourBeverages ! nat k) \<le> 100"
    by blast
  have q: "q \<le> 100" using assms(4) p(4) by simp
  have qe: "f64_of_int q = of_int q" using assms(3) q by (intro f64_of_int_exact) simp_all
  have b: "0 \<le> p * q" "p * q \<le> 500"
    using p(1,2) assms(3) q mult_mono [of p 5 q 100] by simp_all
  have e: "Price (ourBeverages ! nat k) * of_int q = of_int (p * q) / 2" by (simp add: p(3))
  have "f64_round (of_int (p * q) / 2) = of_int (p * q) / 2"
    using b by (intro f64_round_half) simp_all
  then have "f64_mul (Price (ourBeverages ! nat k)) (f64_of_int q) = Price (ourBeverages ! nat k) * of_int q"
    by (simp only: f64_mul_def qe e)
  with b e show ?thesis by blast
qed

lemma f64_add_exact:
  assumes "0 \<le> n" "n \<le> 500" "0 \<le> n'" "n' \<le> 500"
  shows "f64_add (of_int n / 2) (of_int n' / 2) = of_int n / 2 + of_int n' / 2"
proof -
  have "f64_round (of_int (n + n') / 2) = of_int (n + n') / 2"
    using assms by (intro f64_round_half) simp_all
  then show ?thesis by (simp add: f64_add_def add_divide_distrib)
qed


lemma cartLoop_two:
  assumes "bounds_inv m" "beverages m = ourBeverages"
    "0 < cart_get (cart m) a" "0 < cart_get (cart m) b"
  shows "cartLoop (beverages m) (cart m) [a, b] (0, False, cartHeader) =
         Inr (spec_lineTotal m a + spec_lineTotal m b, True, cartHeader @ exact_line m a @ exact_line m b)"
proof -
  have entry: "0 \<le> k \<and> k < int (length ourBeverages) \<and> 0 \<le> cart_get (cart m) k \<and>
               cart_get (cart m) k \<le> Stock (ourBeverages ! nat k)"
    if "0 < cart_get (cart m) k" for k
  proof -
    from that obtain q where "cart m k = Some q" by (cases "cart m k") (auto simp: cart_get_def)
    with assms(1,2) show ?thesis by (auto simp: bounds_inv_def cart_get_def)
  qed
  note ea = entry [OF assms(3)] and eb = entry [OF assms(4)]
  from item_exact [of a "cart_get (cart m) a"] ea obtain na where
    na: "f64_mul (Price (ourBeverages ! nat a)) (f64_of_int (cart_get (cart m) a)) = spec_lineTotal m a"
        "0 \<le> na" "na \<le> 500" "spec_lineTotal m a = of_int na / 2"
    unfolding spec_lineTotal_def assms(2) by blast
  from item_exact [of b "cart_get (cart m) b"] eb obtain nb where
    nb: "f64_mul (Price (ourBeverages ! nat b)) (f64_of_int (cart_get (cart m) b)) = spec_lineTotal m b"
        "0 \<le> nb" "nb \<le> 500" "spec_lineTotal m b = of_int nb / 2"
    unfolding spec_lineTotal_def assms(2) by blast
  have "f64_add (of_int 0 / 2) (of_int na / 2) = of_int 0 / 2 + of_int na / 2"
    by (rule f64_add_exact) (use na in simp_all)
  then have s0: "f64_add 0 (spec_lineTotal m a) = spec_lineTotal m a"
    by (simp add: na(4))
  have "f64_add (of_int na / 2) (of_int nb / 2) = of_int na / 2 + of_int nb / 2"
    by (rule f64_add_exact) (use na nb in simp_all)
  then have s1: "f64_add (spec_lineTotal m a) (spec_lineTotal m b) = spec_lineTotal m a + spec_lineTotal m b"
    by (simp only: na(4) nb(4))
  have ia: "index_slice ourBeverages a = Inr (ourBeverages ! nat a)"
    and ib: "index_slice ourBeverages b = Inr (ourBeverages ! nat b)"
    using ea eb by (simp_all add: index_slice_def)
  show ?thesis
    by (simp add: assms(2,3,4) ia ib Let_def na(1) nb(1) s0 s1 exact_line_def)
qed

lemma cartView_filter_two:
  assumes "bounds_inv m" "beverages m = ourBeverages"
    "filter (\<lambda>k. 0 < cart_get (cart m) k) ks = [a, b]"
  shows "cartView ks m = Inr (exact_cartView m a b)"
proof -
  have "a \<in> set (filter (\<lambda>k. 0 < cart_get (cart m) k) ks)"
    "b \<in> set (filter (\<lambda>k. 0 < cart_get (cart m) k) ks)"
    by (simp_all only: assms(3)) simp_all
  then have ab: "0 < cart_get (cart m) a" "0 < cart_get (cart m) b" by simp_all
  have "cartLoop (beverages m) (cart m) ks (0, False, cartHeader) =
        Inr (spec_lineTotal m a + spec_lineTotal m b, True,
             cartHeader @ exact_line m a @ exact_line m b)"
    by (subst cartLoop_skip) (simp only: assms(3) cartLoop_two [OF assms(1,2) ab])
  then show ?thesis by (simp add: cartView_def exact_cartView_def)
qed

section \<open>The formatting of the model against the formatting of the spec\<close>

lemma digit_char_spec:
  assumes "d < 10"
  shows "digit_char d = spec_digit d"
proof -
  have "\<forall>d\<in>{0..<10}. digit_char d = spec_digit d" by code_simp
  with assms show ?thesis by simp
qed

lemma natToDec_spec: "natToDec n = spec_decimal n"
proof (induction n rule: natToDec.induct)
  case (1 n)
  show ?case
  proof (cases "n < 10")
    case True
    then show ?thesis
      by (simp add: natToDec.simps [of n] spec_digits.simps [of n] spec_decimal_def digit_char_spec)
  next
    case False
    have "natToDec n = natToDec (n div 10) @ [digit_char (n mod 10)]"
      using False by (simp add: natToDec.simps [of n])
    also have "\<dots> = spec_decimal (n div 10) @ [spec_digit (n mod 10)]"
      using "1.IH" False by (simp add: digit_char_spec)
    also have "\<dots> = spec_decimal n"
      using False by (simp add: spec_digits.simps [of n] spec_decimal_def)
    finally show ?thesis .
  qed
qed

lemma fmt_d_spec: "0 \<le> q \<Longrightarrow> fmt_d q = spec_decimal (nat q)"
  by (simp add: fmt_d_def natToDec_spec)

lemma padRight_spec: "padRight 20 name = spec_padded name"
  by (cases "length name \<le> 20") (simp_all add: padRight_def spec_padded_def max_def)

lemma mod_100_div_10: "(c::nat) mod 100 div 10 = c div 10 mod 10"
proof -
  have "c mod (10 * 10) = 10 * (c div 10 mod 10) + c mod 10" by (rule mod_mult2_eq)
  then have "c mod 100 = 10 * (c div 10 mod 10) + c mod 10" by simp
  then show ?thesis by simp
qed

lemma fmt_2f_spec:
  assumes "0 \<le> n"
  shows "fmt_2f (of_int n / 2) = spec_two_places (of_int n / 2)"
proof -
  define c where "c = nat (50 * n)"
  have x: "0 \<le> (of_int n / 2 :: rat)" using assms by simp
  then have nx: "\<not> (of_int n / 2 :: rat) < 0" by simp
  have h: "(of_int n / 2 :: rat) * 100 = of_int (50 * n)" by simp
  have r: "nat (round_half_even (\<bar>of_int n / 2\<bar> * 100)) = c"
    using x by (simp only: abs_of_nonneg h round_half_even_of_int c_def)
  have f: "nat \<lfloor>(of_int n / 2 :: rat) * 100\<rfloor> = c"
    by (simp only: h floor_of_int c_def)
  have t: "c div 10 mod 10 < 10" "c mod 10 < 10" by simp_all
  have "fmt_2f (of_int n / 2) =
        natToDec (c div 100) @ ''.'' @ [digit_char (c mod 100 div 10), digit_char (c mod 10)]"
    using nx unfolding fmt_2f_def Let_def r by (simp only: if_False append_Nil)
  also have "\<dots> = spec_decimal (c div 100) @ ''.'' @ [spec_digit (c div 10 mod 10), spec_digit (c mod 10)]"
    by (simp only: natToDec_spec mod_100_div_10 digit_char_spec [OF t(1)] digit_char_spec [OF t(2)])
  also have "\<dots> = spec_two_places (of_int n / 2)"
    unfolding spec_two_places_def Let_def f ..
  finally show ?thesis .
qed

lemma exact_line_spec:
  assumes "beverages m = ourBeverages" "0 \<le> k" "k < int (length ourBeverages)"
    "0 \<le> cart_get (cart m) k" "cart_get (cart m) k \<le> Stock (ourBeverages ! nat k)"
  shows "exact_line m k = spec_line m k"
proof -
  from catalog_item [OF assms(2,3)] obtain p where
    p: "0 \<le> p" "Price (ourBeverages ! nat k) = of_int p / 2"
    by blast
  from item_exact [OF assms(2,3,4,5)] obtain n where
    n: "0 \<le> n" "Price (ourBeverages ! nat k) * of_int (cart_get (cart m) k) = of_int n / 2"
    by blast
  have a: "fmt_2f (Price (ourBeverages ! nat k)) = spec_two_places (Price (ourBeverages ! nat k))"
    unfolding p(2) using p(1) by (rule fmt_2f_spec)
  have b: "fmt_2f (spec_lineTotal m k) = spec_two_places (spec_lineTotal m k)"
    unfolding spec_lineTotal_def assms(1) n(2) using n(1) by (rule fmt_2f_spec)
  show ?thesis
    by (simp add: exact_line_def spec_line_def cartLine_def assms(1) a b fmt_d_spec [OF assms(4)]
        padRight_spec spec_amount_def euro_def nl_def)
qed

lemma exact_cartView_spec:
  assumes "bounds_inv m" "beverages m = ourBeverages"
    "0 < cart_get (cart m) a" "0 < cart_get (cart m) b"
  shows "exact_cartView m a b = spec_cartView m a b"
proof -
  have entry: "0 \<le> k \<and> k < int (length ourBeverages) \<and> 0 \<le> cart_get (cart m) k \<and>
               cart_get (cart m) k \<le> Stock (ourBeverages ! nat k)"
    if "0 < cart_get (cart m) k" for k
  proof -
    from that obtain q where "cart m k = Some q" by (cases "cart m k") (auto simp: cart_get_def)
    with assms(1,2) show ?thesis by (auto simp: bounds_inv_def cart_get_def)
  qed
  note ea = entry [OF assms(3)] and eb = entry [OF assms(4)]
  have la: "exact_line m a = spec_line m a" using ea by (intro exact_line_spec assms(2)) simp_all
  have lb: "exact_line m b = spec_line m b" using eb by (intro exact_line_spec assms(2)) simp_all
  from item_exact [of a "cart_get (cart m) a"] ea obtain na where
    na: "0 \<le> na" "spec_lineTotal m a = of_int na / 2"
    unfolding spec_lineTotal_def assms(2) by blast
  from item_exact [of b "cart_get (cart m) b"] eb obtain nb where
    nb: "0 \<le> nb" "spec_lineTotal m b = of_int nb / 2"
    unfolding spec_lineTotal_def assms(2) by blast
  have s: "spec_lineTotal m a + spec_lineTotal m b = of_int (na + nb) / 2"
    by (simp add: na(2) nb(2) add_divide_distrib)
  have t: "fmt_2f (spec_lineTotal m a + spec_lineTotal m b) =
           spec_two_places (spec_lineTotal m a + spec_lineTotal m b)"
    unfolding s using na(1) nb(1) by (intro fmt_2f_spec) simp
  show ?thesis
    by (simp add: exact_cartView_def spec_cartView_def la lb totalLine_def t spec_totalLine_def
        spec_amount_def euro_def nl_def cartHeader_def cartSeparator_def cartConfirm_def cartHint_def)
qed

section \<open>Two items in the cart\<close>

text \<open>
  C9. With the catalog of the program and a cart within its bounds, two entries of which
  have a non-zero quantity: whatever the order of the visit, the cart view is the view of
  the spec for one of the two orders of the lines. Each line shows the quantity, the
  padded name, the unit price and the line total price \<open>\<times>\<close> quantity, and the total line
  shows the exact sum of the two line totals, every amount with two decimal places; the
  float64 arithmetic of the code rounds nothing away here.
\<close>

theorem cartView_two_items:
  assumes "bounds_inv m" "beverages m = ourBeverages" "range_order ks (cart m)"
    "i \<noteq> j" "{k. cart_get (cart m) k \<noteq> 0} = {i, j}"
  shows "cartView ks m = Inr (spec_cartView m i j) \<or> cartView ks m = Inr (spec_cartView m j i)"
proof -
  have nonneg: "0 \<le> cart_get (cart m) k" for k
    using assms(1) by (cases "cart m k") (auto simp: bounds_inv_def cart_get_def)
  then have pos: "0 < cart_get (cart m) k \<longleftrightarrow> cart_get (cart m) k \<noteq> 0" for k
    by (simp add: less_le)
  have ij: "0 < cart_get (cart m) i" "0 < cart_get (cart m) j"
    using assms(5) pos by auto
  have ks: "set ks = dom (cart m)" "distinct ks" using assms(3) by (simp_all add: range_order_def)
  have "k \<in> set ks" if "cart_get (cart m) k \<noteq> 0" for k
    using that unfolding ks(1) by (cases "cart m k") (auto simp: cart_get_def)
  then have "{k \<in> set ks. 0 < cart_get (cart m) k} = {k. cart_get (cart m) k \<noteq> 0}"
    by (auto simp: pos)
  then have "{k \<in> set ks. 0 < cart_get (cart m) k} = {i, j}"
    by (simp only: assms(5))
  from filter_two [OF ks(2) this assms(4)]
  have "filter (\<lambda>k. 0 < cart_get (cart m) k) ks = [i, j] \<or>
        filter (\<lambda>k. 0 < cart_get (cart m) k) ks = [j, i]" .
  then show ?thesis
  proof
    assume "filter (\<lambda>k. 0 < cart_get (cart m) k) ks = [i, j]"
    then have "cartView ks m = Inr (exact_cartView m i j)"
      by (rule cartView_filter_two [OF assms(1,2)])
    then have "cartView ks m = Inr (spec_cartView m i j)"
      by (simp only: exact_cartView_spec [OF assms(1,2) ij])
    then show ?thesis ..
  next
    assume "filter (\<lambda>k. 0 < cart_get (cart m) k) ks = [j, i]"
    then have "cartView ks m = Inr (exact_cartView m j i)"
      by (rule cartView_filter_two [OF assms(1,2)])
    then have "cartView ks m = Inr (spec_cartView m j i)"
      by (simp only: exact_cartView_spec [OF assms(1,2) ij(2,1)])
    then show ?thesis ..
  qed
qed

lemma twoItemCart_bounds: "bounds_inv twoItemCart"
  using reachable_inv [OF reachable_twoItemCart] by (simp add: model_inv_def)

lemma reachable_mixedCart: "reachable mixedCart"
proof -
  define st where "st = (\<lambda>cur c. initialModel
    \<lparr>table := \<lparr>cursor = cur, rows = shopRows ourBeverages c, viewportHeight = 6\<rparr>, cart := c\<rparr>)"
  have len: "length (shopRows ourBeverages c) = 5" for c
    by (simp add: length_shopRows ourBeverages_def)
  have i: "initialModel = st 0 Map.empty" by (simp add: st_def initialModel_def)
  have u1: "Update [] (st 0 Map.empty) (KeyMsg ''+'') = Inr (st 0 [0 \<mapsto> 1], None)"
    by (simp add: eval_defs st_def initialModel_def ourBeverages_def)
  have u2: "Update [0] (st 0 [0 \<mapsto> 1]) (KeyMsg ''+'') = Inr (st 0 [0 \<mapsto> 2], None)"
    by (simp add: eval_defs st_def initialModel_def ourBeverages_def)
  have u3: "Update [0] (st 0 [0 \<mapsto> 2]) (KeyMsg ''+'') = Inr (st 0 [0 \<mapsto> 3], None)"
    by (simp add: eval_defs st_def initialModel_def ourBeverages_def)
  have u4: "Update [0] (st 0 [0 \<mapsto> 3]) (KeyMsg ''down'') = Inr (st 1 [0 \<mapsto> 3], None)"
    by (simp add: eval_defs st_def initialModel_def len)
  have u5: "Update [0] (st 1 [0 \<mapsto> 3]) (KeyMsg ''down'') = Inr (st 2 [0 \<mapsto> 3], None)"
    by (simp add: eval_defs st_def initialModel_def len)
  have u6: "Update [0] (st 2 [0 \<mapsto> 3]) (KeyMsg ''+'') = Inr (st 2 [0 \<mapsto> 3, 2 \<mapsto> 1], None)"
    by (simp add: eval_defs st_def initialModel_def ourBeverages_def)
  have u7: "Update [0, 2] (st 2 [0 \<mapsto> 3, 2 \<mapsto> 1]) (KeyMsg ''+'') = Inr (st 2 [0 \<mapsto> 3, 2 \<mapsto> 2], None)"
    by (simp add: eval_defs st_def initialModel_def ourBeverages_def)
  have u8: "Update [0, 2] (st 2 [0 \<mapsto> 3, 2 \<mapsto> 2]) (KeyMsg ''c'') = Inr (mixedCart, None)"
    by (simp add: eval_defs st_def initialModel_def mixedCart_def)
  have c: "cart (st cur c) = c" for cur c by (simp add: st_def)
  have r0: "reachable (st 0 Map.empty)" using reachable.init by (simp only: i)
  have r1: "reachable (st 0 [0 \<mapsto> 1])"
    by (rule reachable.step [OF r0 _ u1]) (simp add: range_order_def c)
  have r2: "reachable (st 0 [0 \<mapsto> 2])"
    by (rule reachable.step [OF r1 _ u2]) (simp add: range_order_def c)
  have r3: "reachable (st 0 [0 \<mapsto> 3])"
    by (rule reachable.step [OF r2 _ u3]) (simp add: range_order_def c)
  have r4: "reachable (st 1 [0 \<mapsto> 3])"
    by (rule reachable.step [OF r3 _ u4]) (simp add: range_order_def c)
  have r5: "reachable (st 2 [0 \<mapsto> 3])"
    by (rule reachable.step [OF r4 _ u5]) (simp add: range_order_def c)
  have r6: "reachable (st 2 [0 \<mapsto> 3, 2 \<mapsto> 1])"
    by (rule reachable.step [OF r5 _ u6]) (simp add: range_order_def c)
  have r7: "reachable (st 2 [0 \<mapsto> 3, 2 \<mapsto> 2])"
    by (rule reachable.step [OF r6 _ u7]) (auto simp: range_order_def c)
  show ?thesis
    by (rule reachable.step [OF r7 _ u8]) (auto simp: range_order_def c)
qed

lemma mixedCart_bounds: "bounds_inv mixedCart"
  using reachable_inv [OF reachable_mixedCart] by (simp add: model_inv_def)

lemma mixedCart_facts:
  "beverages mixedCart = ourBeverages" "range_order [2, 0] (cart mixedCart)"
  "{k. cart_get (cart mixedCart) k \<noteq> 0} = {0, 2}"
  "filter (\<lambda>k. 0 < cart_get (cart mixedCart) k) [2, 0] = [2, 0]"
  by (auto simp: mixedCart_def initialModel_def range_order_def cart_get_def split: if_splits)

lemma replicate_eval:
  "replicate 10 x = [x, x, x, x, x, x, x, x, x, x]"
  "replicate 11 x = [x, x, x, x, x, x, x, x, x, x, x]"
  by (simp_all add: eval_nat_numeral)

lemma spec_cartView_mixedCart:
  "spec_cartView mixedCart 0 2 =
     ''Your Current Order:'' @ [CHR 0x0A, CHR 0x0A] @
     ''  3x Club-Mate            @ '' @ [CHR 0xE2, CHR 0x82, CHR 0xAC] @ ''1.50 each = '' @
       [CHR 0xE2, CHR 0x82, CHR 0xAC] @ ''4.50'' @ [CHR 0x0A] @
     ''  2x Fritz-Kola           @ '' @ [CHR 0xE2, CHR 0x82, CHR 0xAC] @ ''2.00 each = '' @
       [CHR 0xE2, CHR 0x82, CHR 0xAC] @ ''4.00'' @ [CHR 0x0A] @
     [CHR 0x0A] @ ''  -------------------------------------------'' @ [CHR 0x0A] @
     ''  Total: '' @ [CHR 0xE2, CHR 0x82, CHR 0xAC] @ ''8.50'' @ [CHR 0x0A] @
     [CHR 0x0A, CHR 0x0A] @ ''Press 'enter' to checkout.''"
  "spec_cartView mixedCart 2 0 =
     ''Your Current Order:'' @ [CHR 0x0A, CHR 0x0A] @
     ''  2x Fritz-Kola           @ '' @ [CHR 0xE2, CHR 0x82, CHR 0xAC] @ ''2.00 each = '' @
       [CHR 0xE2, CHR 0x82, CHR 0xAC] @ ''4.00'' @ [CHR 0x0A] @
     ''  3x Club-Mate            @ '' @ [CHR 0xE2, CHR 0x82, CHR 0xAC] @ ''1.50 each = '' @
       [CHR 0xE2, CHR 0x82, CHR 0xAC] @ ''4.50'' @ [CHR 0x0A] @
     [CHR 0x0A] @ ''  -------------------------------------------'' @ [CHR 0x0A] @
     ''  Total: '' @ [CHR 0xE2, CHR 0x82, CHR 0xAC] @ ''8.50'' @ [CHR 0x0A] @
     [CHR 0x0A, CHR 0x0A] @ ''Press 'enter' to checkout.''"
  by (simp_all add: spec_cartView_def spec_line_def spec_totalLine_def spec_amount_def
      spec_two_places_def spec_decimal_def spec_digits.simps spec_digit_def spec_padded_def
      spec_lineTotal_def mixedCart_def initialModel_def ourBeverages_def cart_get_def Let_def
      replicate_eval)

text \<open>The view of \<open>mixedCart\<close> when the runtime visits Fritz-Kola before Club-Mate.\<close>

lemma cartView_mixedCart:
  "cartView [2, 0] mixedCart =
   Inr (''Your Current Order:'' @ [CHR 0x0A, CHR 0x0A] @
     ''  2x Fritz-Kola           @ '' @ [CHR 0xE2, CHR 0x82, CHR 0xAC] @ ''2.00 each = '' @
       [CHR 0xE2, CHR 0x82, CHR 0xAC] @ ''4.00'' @ [CHR 0x0A] @
     ''  3x Club-Mate            @ '' @ [CHR 0xE2, CHR 0x82, CHR 0xAC] @ ''1.50 each = '' @
       [CHR 0xE2, CHR 0x82, CHR 0xAC] @ ''4.50'' @ [CHR 0x0A] @
     [CHR 0x0A] @ ''  -------------------------------------------'' @ [CHR 0x0A] @
     ''  Total: '' @ [CHR 0xE2, CHR 0x82, CHR 0xAC] @ ''8.50'' @ [CHR 0x0A] @
     [CHR 0x0A, CHR 0x0A] @ ''Press 'enter' to checkout.'')"
proof -
  have "cartView [2, 0] mixedCart = Inr (exact_cartView mixedCart 2 0)"
    by (rule cartView_filter_two [OF mixedCart_bounds mixedCart_facts(1,4)])
  also have "exact_cartView mixedCart 2 0 = spec_cartView mixedCart 2 0"
    by (rule exact_cartView_spec [OF mixedCart_bounds mixedCart_facts(1)])
      (simp_all add: mixedCart_def cart_get_def)
  finally show ?thesis by (simp only: spec_cartView_mixedCart(2))
qed

theorem cartView_two_items_witness:
  "bounds_inv mixedCart \<and> beverages mixedCart = ourBeverages \<and>
   range_order [2, 0] (cart mixedCart) \<and> {k. cart_get (cart mixedCart) k \<noteq> 0} = {0, 2} \<and>
   (cartView [2, 0] mixedCart =
    Inr (''Your Current Order:'' @ [CHR 0x0A, CHR 0x0A] @
     ''  3x Club-Mate            @ '' @ [CHR 0xE2, CHR 0x82, CHR 0xAC] @ ''1.50 each = '' @
       [CHR 0xE2, CHR 0x82, CHR 0xAC] @ ''4.50'' @ [CHR 0x0A] @
     ''  2x Fritz-Kola           @ '' @ [CHR 0xE2, CHR 0x82, CHR 0xAC] @ ''2.00 each = '' @
       [CHR 0xE2, CHR 0x82, CHR 0xAC] @ ''4.00'' @ [CHR 0x0A] @
     [CHR 0x0A] @ ''  -------------------------------------------'' @ [CHR 0x0A] @
     ''  Total: '' @ [CHR 0xE2, CHR 0x82, CHR 0xAC] @ ''8.50'' @ [CHR 0x0A] @
     [CHR 0x0A, CHR 0x0A] @ ''Press 'enter' to checkout.'') \<or>
    cartView [2, 0] mixedCart =
    Inr (''Your Current Order:'' @ [CHR 0x0A, CHR 0x0A] @
     ''  2x Fritz-Kola           @ '' @ [CHR 0xE2, CHR 0x82, CHR 0xAC] @ ''2.00 each = '' @
       [CHR 0xE2, CHR 0x82, CHR 0xAC] @ ''4.00'' @ [CHR 0x0A] @
     ''  3x Club-Mate            @ '' @ [CHR 0xE2, CHR 0x82, CHR 0xAC] @ ''1.50 each = '' @
       [CHR 0xE2, CHR 0x82, CHR 0xAC] @ ''4.50'' @ [CHR 0x0A] @
     [CHR 0x0A] @ ''  -------------------------------------------'' @ [CHR 0x0A] @
     ''  Total: '' @ [CHR 0xE2, CHR 0x82, CHR 0xAC] @ ''8.50'' @ [CHR 0x0A] @
     [CHR 0x0A, CHR 0x0A] @ ''Press 'enter' to checkout.''))"
proof -
  have n: "(0::int) \<noteq> 2" by simp
  from cartView_two_items [OF mixedCart_bounds mixedCart_facts(1,2) n mixedCart_facts(3)]
  have "cartView [2, 0] mixedCart = Inr (spec_cartView mixedCart 0 2) \<or>
        cartView [2, 0] mixedCart = Inr (spec_cartView mixedCart 2 0)" .
  then show ?thesis
    using mixedCart_bounds mixedCart_facts(1,2,3)
    by (simp only: spec_cartView_mixedCart simp_thms)
qed

text \<open>The order of the visit reaches the view only through the order of the entries with
  a positive quantity.\<close>

lemma cartView_same_lines:
  assumes "filter (\<lambda>k. 0 < cart_get (cart m) k) ks = filter (\<lambda>k. 0 < cart_get (cart m) k) ks'"
  shows "cartView ks m = cartView ks' m"
proof -
  have "cartLoop (beverages m) (cart m) ks acc = cartLoop (beverages m) (cart m) ks' acc" for acc
    using cartLoop_skip [of "beverages m" "cart m" ks acc]
      cartLoop_skip [of "beverages m" "cart m" ks' acc] assms
    by simp
  then show ?thesis by (simp add: cartView_def)
qed

lemma line_neq: "exact_line twoItemCart 0 @ r \<noteq> exact_line twoItemCart 1 @ r'"
  by (simp add: exact_line_def cartLine_def twoItemCart_def initialModel_def ourBeverages_def
      cart_get_def fmt_d_def natToDec.simps digit_char_def padRight_def)

text \<open>
  C3. The cart view of one state under two orders in which the runtime may visit the
  cart: the state is reachable, both orders are possible, and the two strings differ
  (the two item lines change places).
\<close>

theorem cartView_order_dependent:
  "reachable twoItemCart \<and> range_order [0, 1] (cart twoItemCart) \<and>
   range_order [1, 0] (cart twoItemCart) \<and>
   cartView [0, 1] twoItemCart \<noteq> cartView [1, 0] twoItemCart"
proof -
  have b: "beverages twoItemCart = ourBeverages" by (simp add: twoItemCart_def initialModel_def)
  have "filter (\<lambda>k. 0 < cart_get (cart twoItemCart) k) [0, 1] = [0, 1]"
    "filter (\<lambda>k. 0 < cart_get (cart twoItemCart) k) [1, 0] = [1, 0]"
    by (simp_all add: twoItemCart_def cart_get_def)
  then have v: "cartView [0, 1] twoItemCart = Inr (exact_cartView twoItemCart 0 1)"
    "cartView [1, 0] twoItemCart = Inr (exact_cartView twoItemCart 1 0)"
    by (simp_all only: cartView_filter_two [OF twoItemCart_bounds b])
  have "exact_cartView twoItemCart 0 1 \<noteq> exact_cartView twoItemCart 1 0"
    unfolding exact_cartView_def same_append_eq by (rule line_neq)
  with v have "cartView [0, 1] twoItemCart \<noteq> cartView [1, 0] twoItemCart" by simp
  then show ?thesis
    using reachable_twoItemCart range_order_twoItemCart by simp
qed

lemma cartLoop_none:
  assumes "\<forall>k\<in>set ks. cart_get c k \<le> 0"
  shows "cartLoop bs c ks acc = Inr acc"
proof -
  have "filter (\<lambda>k. 0 < cart_get c k) ks = []"
    using assms by (auto simp: filter_empty_conv)
  then show ?thesis by (subst cartLoop_skip) simp
qed

text \<open>
  C10. In every reachable state with the checkout pending, some entry of the cart has a
  quantity above 0. And over a cart with no such entry the cart view is the empty-cart
  message, in any state: the confirmation prompt is not rendered there.
\<close>

theorem pending_checkout_has_items:
  "(reachable m \<longrightarrow> isCheckingOut m \<longrightarrow> (\<exists>k q. cart m k = Some q \<and> 0 < q)) \<and>
   ((\<forall>k q. cart m k = Some q \<longrightarrow> q \<le> 0) \<longrightarrow> cartView ks m = Inr (cartHeader @ cartEmpty))"
proof
  show "reachable m \<longrightarrow> isCheckingOut m \<longrightarrow> (\<exists>k q. cart m k = Some q \<and> 0 < q)"
    using reachable_inv [of m] by (simp add: model_inv_def)
  show "(\<forall>k q. cart m k = Some q \<longrightarrow> q \<le> 0) \<longrightarrow> cartView ks m = Inr (cartHeader @ cartEmpty)"
  proof
    assume a: "\<forall>k q. cart m k = Some q \<longrightarrow> q \<le> 0"
    have "cart_get (cart m) k \<le> 0" for k
      using a by (cases "cart m k") (simp_all add: cart_get_def)
    then have "cartLoop (beverages m) (cart m) ks (0, False, cartHeader) = Inr (0, False, cartHeader)"
      by (intro cartLoop_none) simp
    then show "cartView ks m = Inr (cartHeader @ cartEmpty)"
      by (simp add: cartView_def)
  qed
qed

theorem pending_checkout_has_items_witness:
  "reachable pendingCheckout \<and> isCheckingOut pendingCheckout \<and>
   (\<exists>k q. cart pendingCheckout k = Some q \<and> 0 < q) \<and>
   cart zeroCart = [0 \<mapsto> 0] \<and>
   cartView [0] zeroCart = Inr (cartHeader @ cartEmpty)"
proof -
  have z: "\<forall>k q. cart zeroCart k = Some q \<longrightarrow> q \<le> 0" by (simp add: zeroCart_def)
  have c: "cart zeroCart = [0 \<mapsto> 0]" by (simp add: zeroCart_def)
  have p: "isCheckingOut pendingCheckout" by (simp add: pendingCheckout_def)
  from pending_checkout_has_items [of pendingCheckout "[0]"] pending_checkout_has_items [of zeroCart "[0]"]
    reachable_pendingCheckout z p c
  show ?thesis by simp
qed

end
